theory Spec2Isabelle
  imports Main "HOL-Library.Word"
begin

section \<open>Strings\<close>

text \<open>
  A JavaScript string is a sequence of UTF-16 code units: \<open>length\<close> and \<open>substring\<close>
  count code units. The literals of the source are written with \<open>ascii\<close>; the two
  marks U+2713 and U+2717 are single code units.
\<close>

type_synonym code_unit = "16 word"
type_synonym jsstring = "code_unit list"

definition ascii :: "string \<Rightarrow> jsstring" where
  "ascii s = map of_char s"

definition successMarker :: jsstring where
  "successMarker = 0x2713 # ascii '' Success''"

definition errorMarker :: jsstring where
  "errorMarker = 0x2717 # ascii '' Error: ''"

definition unknownError :: jsstring where
  "unknownError = ascii ''Unknown error''"

definition ellipsis :: jsstring where
  "ellipsis = ascii ''...''"

section \<open>Data model\<close>

datatype entry_type = User | Assistant | ToolCall | ToolResult

text \<open>\<open>GrokToolCall\<close>: \<open>id\<close> and \<open>function.{name, arguments}\<close>.\<close>

record GrokToolCall =
  tc_id :: jsstring
  fn_name :: jsstring
  fn_arguments :: jsstring

text \<open>The result payload of a tool; \<open>outputText\<close> is its field \<open>output\<close>, which may be
  absent, as may \<open>error\<close>.\<close>

record ToolResultPayload =
  success :: bool
  outputText :: "jsstring option"
  error :: "jsstring option"

text \<open>
  \<open>ChatEntry\<close>. The optional flag \<open>isStreaming\<close> is only ever tested for truthiness, so
  an absent flag is \<open>False\<close>. The timestamp is the clock reading of \<open>new Date()\<close>.
\<close>

record ChatEntry =
  etype :: entry_type
  content :: jsstring
  timestamp :: int
  isStreaming :: bool
  toolCalls :: "GrokToolCall list option"
  toolCall :: "GrokToolCall option"
  toolResult :: "ToolResultPayload option"

record ConfirmationOptions =
  operation :: jsstring
  filename :: jsstring
  showVSCodeOpen :: "bool option"
  previewContent :: "jsstring option"

text \<open>The chunks of \<open>agent.processUserMessageStream\<close>, each with its optional payload.\<close>

datatype chunk =
    Content "jsstring option"
  | Completion "jsstring option"
  | TokenCount "int option"
  | ToolCalls "GrokToolCall list option"
  | ToolResultChunk "GrokToolCall option" "ToolResultPayload option"
  | Done

text \<open>
  The state of \<open>ChatInterfaceWithAgent\<close> (its \<open>useState\<close> and \<open>useRef\<close> cells), the local
  variables of \<open>processInitialMessage\<close>, and the number of clock readings taken so far.
  A state setter is applied at once.
\<close>

record state =
  chatHistory :: "ChatEntry list"
  isProcessing :: bool
  processingTime :: int
  tokenCount :: int
  isStreamingState :: bool
  confirmationOptions :: "ConfirmationOptions option"
  processingStartTime :: int
  streamingEntry :: "ChatEntry option"
  accumulatedContent :: jsstring
  lastTokenCount :: int
  pendingToolCalls :: "GrokToolCall list option"
  pendingToolResults :: "(GrokToolCall \<times> ToolResultPayload) list"
  lastUpdateTime :: int
  ticks :: nat

text \<open>The system clock: the \<open>n\<close>-th reading (\<open>Date.now()\<close> or \<open>new Date()\<close>), in ms.\<close>

type_synonym clock = "nat \<Rightarrow> int"

section \<open>The flush\<close>

text \<open>\<open>Array.prototype.findIndex\<close>; \<open>None\<close> stands for \<open>-1\<close>.\<close>

fun findIndex :: "('a \<Rightarrow> bool) \<Rightarrow> 'a list \<Rightarrow> nat option" where
  "findIndex P [] = None"
| "findIndex P (x # xs) =
     (if P x then Some 0 else map_option Suc (findIndex P xs))"

text \<open>First block of the updater: the accumulated content.\<close>

definition applyAccumulatedContent :: "clock \<Rightarrow> state \<Rightarrow> state" where
  "applyAccumulatedContent clk st =
     (if accumulatedContent st = [] then st
      else
        (case streamingEntry st of
           None \<Rightarrow>
             (let newStreamingEntry =
                    \<lparr>etype = Assistant, content = accumulatedContent st,
                     timestamp = clk (ticks st), isStreaming = True,
                     toolCalls = None, toolCall = None, toolResult = None\<rparr>
              in st\<lparr>chatHistory := chatHistory st @ [newStreamingEntry],
                    streamingEntry := Some newStreamingEntry,
                    ticks := Suc (ticks st),
                    accumulatedContent := []\<rparr>)
         | Some _ \<Rightarrow>
             (case findIndex isStreaming (chatHistory st) of
                None \<Rightarrow> st\<lparr>accumulatedContent := []\<rparr>
              | Some streamingIdx \<Rightarrow>
                  st\<lparr>chatHistory :=
                        (chatHistory st)[streamingIdx :=
                           (chatHistory st ! streamingIdx)
                             \<lparr>content := content (chatHistory st ! streamingIdx)
                                           @ accumulatedContent st\<rparr>],
                      accumulatedContent := []\<rparr>)))"

text \<open>
  The description of a tool call is computed from \<open>JSON.parse\<close> of its arguments inside
  a \<open>try\<close> whose \<open>catch\<close> falls back to a generic text, so it always yields a string;
  it is a parameter \<open>descr\<close> here.
\<close>

type_synonym describer = "GrokToolCall \<Rightarrow> jsstring"

text \<open>
  What the source fixes of that text whatever the arguments are: for a name that is none
  of the five of the \<open>switch\<close>, the default case and the \<open>catch\<close> block both give
  \<open>Using\<close> and the name. For the five names the text depends on the parsed arguments
  and is left to \<open>parsed\<close>.
\<close>

definition describeToolCall :: "describer \<Rightarrow> describer" where
  "describeToolCall parsed tc =
     (if fn_name tc = ascii ''create_file'' \<or> fn_name tc = ascii ''str_replace_editor''
         \<or> fn_name tc = ascii ''view_file'' \<or> fn_name tc = ascii ''bash''
         \<or> fn_name tc = ascii ''search''
      then parsed tc
      else ascii ''Using '' @ fn_name tc)"

text \<open>The \<open>forEach\<close> that pushes one tool-call entry per announced call.\<close>

fun pushToolCallEntries ::
  "clock \<Rightarrow> describer \<Rightarrow> GrokToolCall list \<Rightarrow> ChatEntry list \<times> nat \<Rightarrow> ChatEntry list \<times> nat"
where
  "pushToolCallEntries clk descr [] (h, t) = (h, t)"
| "pushToolCallEntries clk descr (tc # tcs) (h, t) =
     pushToolCallEntries clk descr tcs
       (h @ [\<lparr>etype = ToolCall, content = descr tc, timestamp = clk t,
               isStreaming = False, toolCalls = None, toolCall = Some tc,
               toolResult = None\<rparr>], Suc t)"

text \<open>Second block of the updater: the pending tool calls.\<close>

definition applyPendingToolCalls :: "clock \<Rightarrow> describer \<Rightarrow> state \<Rightarrow> state" where
  "applyPendingToolCalls clk descr st =
     (case pendingToolCalls st of
        None \<Rightarrow> st
      | Some tcs \<Rightarrow>
          (let newHistory =
                 (case findIndex isStreaming (chatHistory st) of
                    None \<Rightarrow> chatHistory st
                  | Some streamingIdx \<Rightarrow>
                      (chatHistory st)[streamingIdx :=
                         (chatHistory st ! streamingIdx)
                           \<lparr>isStreaming := False, toolCalls := Some tcs\<rparr>]);
               (h, t) = pushToolCallEntries clk descr tcs (newHistory, ticks st)
           in st\<lparr>chatHistory := h, ticks := t, streamingEntry := None,
                 pendingToolCalls := None\<rparr>))"

text \<open>The displayed text of a tool result.\<close>

definition resultContent :: "ToolResultPayload \<Rightarrow> jsstring" where
  "resultContent r =
     (if success r then
        (let out = (case outputText r of None \<Rightarrow> [] | Some s \<Rightarrow> s)
         in if length out > 200 then take 200 out @ ellipsis
            else if out = [] then successMarker else out)
      else errorMarker @
        (case error r of None \<Rightarrow> unknownError
         | Some e \<Rightarrow> if e = [] then unknownError else e))"

text \<open>The function mapped over the history by the third block.\<close>

definition updateEntry ::
  "(GrokToolCall \<times> ToolResultPayload) list \<Rightarrow> ChatEntry \<Rightarrow> ChatEntry" where
  "updateEntry results entry =
     (if isStreaming entry then entry\<lparr>isStreaming := False\<rparr>
      else
        (case find (\<lambda>result. etype entry = ToolCall \<and>
                      map_option tc_id (toolCall entry) = Some (tc_id (fst result)))
                   results of
           Some matchingResult \<Rightarrow>
             entry\<lparr>etype := ToolResult,
                   content := resultContent (snd matchingResult),
                   toolResult := Some (snd matchingResult)\<rparr>
         | None \<Rightarrow> entry))"

text \<open>Third block of the updater: the pending tool results.\<close>

definition applyPendingToolResults :: "state \<Rightarrow> state" where
  "applyPendingToolResults st =
     (if length (pendingToolResults st) > 0 then
        st\<lparr>chatHistory := map (updateEntry (pendingToolResults st)) (chatHistory st),
            streamingEntry := None,
            pendingToolResults := []\<rparr>
      else st)"

text \<open>
  \<open>flushUpdates\<close>. \<open>conf\<close> is the value of \<open>confirmationOptions\<close> that the closure
  of the effect holds.
\<close>

definition flushUpdates ::
  "clock \<Rightarrow> describer \<Rightarrow> ConfirmationOptions option \<Rightarrow> state \<Rightarrow> state" where
  "flushUpdates clk descr conf st0 =
     (let now = clk (ticks st0);
          st = st0\<lparr>ticks := Suc (ticks st0)\<rparr>
      in if now - lastUpdateTime st < 250 then st
         else if conf \<noteq> None then st
         else
           (let st1 = applyAccumulatedContent clk st;
                st2 = applyPendingToolCalls clk descr st1;
                st3 = applyPendingToolResults st2;
                st4 = (if lastTokenCount st3 \<noteq> 0
                       then st3\<lparr>tokenCount := lastTokenCount st3\<rparr> else st3)
            in st4\<lparr>lastUpdateTime := now\<rparr>))"

section \<open>Consuming the stream\<close>

text \<open>The body of the \<open>switch\<close> on the chunk type.\<close>

fun handleChunk ::
  "clock \<Rightarrow> describer \<Rightarrow> ConfirmationOptions option \<Rightarrow> state \<Rightarrow> chunk \<Rightarrow> state"
where
  "handleChunk clk descr conf st (Content c) =
     (case c of
        None \<Rightarrow> st
      | Some s \<Rightarrow> if s = [] then st
                  else st\<lparr>accumulatedContent := accumulatedContent st @ s\<rparr>)"
| "handleChunk clk descr conf st (Completion c) =
     (case c of
        None \<Rightarrow> st
      | Some s \<Rightarrow>
          if s = [] then st
          else
            (let st1 = flushUpdates clk descr conf st
             in st1\<lparr>chatHistory := chatHistory st1 @
                       [\<lparr>etype = Assistant, content = s, timestamp = clk (ticks st1),
                         isStreaming = False, toolCalls = None, toolCall = None,
                         toolResult = None\<rparr>],
                     ticks := Suc (ticks st1)\<rparr>))"
| "handleChunk clk descr conf st (TokenCount n) =
     (case n of None \<Rightarrow> st | Some k \<Rightarrow> st\<lparr>lastTokenCount := k\<rparr>)"
| "handleChunk clk descr conf st (ToolCalls tcs) =
     (case tcs of
        None \<Rightarrow> st
      | Some l \<Rightarrow> st\<lparr>pendingToolCalls := Some l\<rparr>)"
| "handleChunk clk descr conf st (ToolResultChunk tc r) =
     (case (tc, r) of
        (Some c, Some res) \<Rightarrow>
          st\<lparr>pendingToolResults := pendingToolResults st @ [(c, res)]\<rparr>
      | _ \<Rightarrow> st)"
| "handleChunk clk descr conf st Done = flushUpdates clk descr conf st"

text \<open>One iteration of the \<open>for await\<close> loop: the \<open>switch\<close>, then a flush.\<close>

definition processChunk ::
  "clock \<Rightarrow> describer \<Rightarrow> ConfirmationOptions option \<Rightarrow> state \<Rightarrow> chunk \<Rightarrow> state"
where
  "processChunk clk descr conf st c =
     flushUpdates clk descr conf (handleChunk clk descr conf st c)"

definition processChunks ::
  "clock \<Rightarrow> describer \<Rightarrow> ConfirmationOptions option \<Rightarrow> state \<Rightarrow> chunk list \<Rightarrow> state"
where
  "processChunks clk descr conf st cs = foldl (processChunk clk descr conf) st cs"

text \<open>After the loop: the final flush and the cleanup.\<close>

definition finishStream ::
  "clock \<Rightarrow> describer \<Rightarrow> ConfirmationOptions option \<Rightarrow> state \<Rightarrow> state" where
  "finishStream clk descr conf st =
     (let st1 = flushUpdates clk descr conf st;
          st2 = (case streamingEntry st1 of
                   None \<Rightarrow> st1
                 | Some _ \<Rightarrow>
                     st1\<lparr>chatHistory :=
                           map (\<lambda>entry. if isStreaming entry
                                         then entry\<lparr>isStreaming := False\<rparr> else entry)
                               (chatHistory st1)\<rparr>)
      in st2\<lparr>isStreamingState := False\<rparr>)"

text \<open>The \<open>catch\<close> block; \<open>errorMessage\<close> is \<open>error.message\<close> or \<open>String(error)\<close>.\<close>

definition failStream :: "clock \<Rightarrow> jsstring \<Rightarrow> state \<Rightarrow> state" where
  "failStream clk errorMessage st =
     st\<lparr>chatHistory := chatHistory st @
           [\<lparr>etype = Assistant, content = ascii ''Error: '' @ errorMessage,
             timestamp = clk (ticks st), isStreaming = False, toolCalls = None,
             toolCall = None, toolResult = None\<rparr>],
         ticks := Suc (ticks st),
         isStreamingState := False\<rparr>"

text \<open>The values of the hooks when the component mounts.\<close>

definition initialState :: state where
  "initialState =
     \<lparr>chatHistory = [], isProcessing = False, processingTime = 0, tokenCount = 0,
      isStreamingState = False, confirmationOptions = None, processingStartTime = 0,
      streamingEntry = None, accumulatedContent = [], lastTokenCount = 0,
      pendingToolCalls = None, pendingToolResults = [], lastUpdateTime = 0,
      ticks = 0\<rparr>"

text \<open>
  The start of the effect, under its guard \<open>if (initialMessage && agent)\<close> (the guard
  itself is in \<open>initialMessageEffect\<close> below): the user's entry replaces the history,
  the flags are raised, the locals are initialised and the clock is read for
  \<open>lastUpdateTime\<close>.
\<close>

definition startInitialMessage :: "clock \<Rightarrow> jsstring \<Rightarrow> state \<Rightarrow> state" where
  "startInitialMessage clk initialMessage st =
     st\<lparr>chatHistory :=
           [\<lparr>etype = User, content = initialMessage, timestamp = clk (ticks st),
             isStreaming = False, toolCalls = None, toolCall = None,
             toolResult = None\<rparr>],
         isProcessing := True,
         isStreamingState := True,
         streamingEntry := None,
         accumulatedContent := [],
         lastTokenCount := 0,
         pendingToolCalls := None,
         pendingToolResults := [],
         lastUpdateTime := clk (Suc (ticks st)),
         ticks := Suc (Suc (ticks st))\<rparr>"

text \<open>
  \<open>processInitialMessage\<close>, for a non-empty initial message, on a stream that yields
  \<open>cs\<close> and then either ends (\<open>None\<close>) or throws (\<open>Some errorMessage\<close>).
\<close>

definition processInitialMessage ::
  "clock \<Rightarrow> describer \<Rightarrow> ConfirmationOptions option \<Rightarrow> jsstring
     \<Rightarrow> chunk list \<Rightarrow> jsstring option \<Rightarrow> state \<Rightarrow> state"
where
  "processInitialMessage clk descr conf initialMessage cs thrown st =
     (let st1 = processChunks clk descr conf (startInitialMessage clk initialMessage st) cs;
          st2 = (case thrown of
                   None \<Rightarrow> finishStream clk descr conf st1
                 | Some errorMessage \<Rightarrow> failStream clk errorMessage st1)
      in st2\<lparr>isProcessing := False, processingStartTime := 0\<rparr>)"

section \<open>The confirmation handlers\<close>

text \<open>
  The callback that \<open>handleRejection\<close> schedules. The call of the confirmation service
  does not touch the component's state.
\<close>

definition handleRejection :: "state \<Rightarrow> state" where
  "handleRejection st =
     st\<lparr>confirmationOptions := None,
         isProcessing := False,
         isStreamingState := False,
         tokenCount := 0,
         processingTime := 0,
         processingStartTime := 0\<rparr>"

text \<open>The handler of the service's event \<open>confirmation-requested\<close>.\<close>

definition handleConfirmationRequest :: "ConfirmationOptions \<Rightarrow> state \<Rightarrow> state" where
  "handleConfirmationRequest opts st = st\<lparr>confirmationOptions := Some opts\<rparr>"

text \<open>
  What can happen while the loop awaits the next chunk: the chunk arrives, or the
  confirmation service asks. The request sets the state of the hook. The
  \<open>confirmationOptions\<close> that the running \<open>flushUpdates\<close> tests is the constant of the
  render in which the effect was created, \<open>conf\<close>, and the request does not change it.
\<close>

datatype event = ChunkArrives chunk | ConfirmationRequested ConfirmationOptions

fun processEvent ::
  "clock \<Rightarrow> describer \<Rightarrow> ConfirmationOptions option \<Rightarrow> state \<Rightarrow> event \<Rightarrow> state"
where
  "processEvent clk descr conf st (ChunkArrives c) = processChunk clk descr conf st c"
| "processEvent clk descr conf st (ConfirmationRequested opts) =
     handleConfirmationRequest opts st"

definition processEvents ::
  "clock \<Rightarrow> describer \<Rightarrow> ConfirmationOptions option \<Rightarrow> state \<Rightarrow> event list \<Rightarrow> state"
where
  "processEvents clk descr conf st evs = foldl (processEvent clk descr conf) st evs"

text \<open>
  The effect on \<open>[initialMessage, agent]\<close>. Without an initial message it does nothing
  (the component always has an agent). Otherwise it runs \<open>processInitialMessage\<close>, whose
  closures hold the \<open>confirmationOptions\<close> of the render that the effect belongs to.
\<close>

definition initialMessageEffect ::
  "clock \<Rightarrow> describer \<Rightarrow> jsstring \<Rightarrow> event list \<Rightarrow> jsstring option \<Rightarrow> state \<Rightarrow> state"
where
  "initialMessageEffect clk descr initialMessage evs thrown st =
     (if initialMessage = [] then st
      else
        (let conf = confirmationOptions st;
             st1 = processEvents clk descr conf (startInitialMessage clk initialMessage st) evs;
             st2 = (case thrown of
                      None \<Rightarrow> finishStream clk descr conf st1
                    | Some errorMessage \<Rightarrow> failStream clk errorMessage st1)
         in st2\<lparr>isProcessing := False, processingStartTime := 0\<rparr>))"

section \<open>Headless mode\<close>

text \<open>
  The messages that \<open>processPromptHeadless\<close> builds from the agent's entries. The tool
  calls of an assistant message carry the id, the name and the arguments of the entry's
  tool calls (and the constant type \<open>function\<close>).
\<close>

datatype message =
    UserMessage jsstring
  | AssistantMessage jsstring "GrokToolCall list option"
  | ToolMessage jsstring jsstring

text \<open>The body of the loop over the entries: the \<open>switch\<close> on the entry's type.\<close>

definition pushMessage :: "message list \<Rightarrow> ChatEntry \<Rightarrow> message list" where
  "pushMessage messages entry =
     (case etype entry of
        User \<Rightarrow> messages @ [UserMessage (content entry)]
      | Assistant \<Rightarrow>
          messages @
            [AssistantMessage (content entry)
               (case toolCalls entry of
                  None \<Rightarrow> None
                | Some tcs \<Rightarrow>
                    if length tcs > 0
                    then Some (map (\<lambda>toolCall.
                                 \<lparr>tc_id = tc_id toolCall, fn_name = fn_name toolCall,
                                  fn_arguments = fn_arguments toolCall\<rparr>) tcs)
                    else None)]
      | ToolResult \<Rightarrow>
          (case toolCall entry of
             Some tc \<Rightarrow> messages @ [ToolMessage (tc_id tc) (content entry)]
           | None \<Rightarrow> messages)
      | ToolCall \<Rightarrow> messages)"

definition headlessMessages :: "ChatEntry list \<Rightarrow> message list" where
  "headlessMessages chatEntries = foldl pushMessage [] chatEntries"

text \<open>
  The lines printed: one \<open>console.log (JSON.stringify message)\<close> per message, with
  \<open>JSON.stringify\<close> as the parameter \<open>stringify\<close>.
\<close>

definition headlessOutput :: "(message \<Rightarrow> jsstring) \<Rightarrow> ChatEntry list \<Rightarrow> jsstring list" where
  "headlessOutput stringify chatEntries = map stringify (headlessMessages chatEntries)"

text \<open>Whether an entry is one of those the loop turns into a message.\<close>

definition emitsMessage :: "ChatEntry \<Rightarrow> bool" where
  "emitsMessage entry =
     (case etype entry of
        User \<Rightarrow> True
      | Assistant \<Rightarrow> True
      | ToolResult \<Rightarrow> (case toolCall entry of Some _ \<Rightarrow> True | None \<Rightarrow> False)
      | ToolCall \<Rightarrow> False)"

section \<open>Sample values\<close>

definition sampleCall :: GrokToolCall where
  "sampleCall = \<lparr>tc_id = ascii ''1'', fn_name = ascii ''list_files'',
                  fn_arguments = ascii ''{}''\<rparr>"

definition sampleCallEntry :: ChatEntry where
  "sampleCallEntry =
     \<lparr>etype = ToolCall, content = ascii ''Using list_files'', timestamp = 0,
      isStreaming = False, toolCalls = None, toolCall = Some sampleCall,
      toolResult = None\<rparr>"

definition sampleResult :: "bool \<Rightarrow> jsstring option \<Rightarrow> jsstring option \<Rightarrow> ToolResultPayload" where
  "sampleResult ok out err = \<lparr>success = ok, outputText = out, error = err\<rparr>"

definition sampleOptions :: ConfirmationOptions where
  "sampleOptions = \<lparr>operation = ascii ''Run bash command'', filename = ascii ''rm file.txt'',
                     showVSCodeOpen = None, previewContent = None\<rparr>"

text \<open>
  The descriptions of a run in which the arguments of no call to one of the five names
  parse, so that the \<open>catch\<close> block describes them.
\<close>

definition sampleDescr :: describer where
  "sampleDescr = describeToolCall (\<lambda>tc. ascii ''Using '' @ fn_name tc)"

text \<open>A clock whose readings are 10 ms apart, and one whose readings are 300 ms apart.\<close>

definition fastClock :: clock where
  "fastClock n = 10 * int n"

definition slowClock :: clock where
  "slowClock n = 300 * int n"

text \<open>A clock that reads 0 at the start and 300 ms from the first chunk on.\<close>

definition lateClock :: clock where
  "lateClock n = (if n < 2 then 0 else 300)"

definition lateStart :: state where
  "lateStart = startInitialMessage lateClock (ascii ''hello'') initialState"

definition slowStart :: state where
  "slowStart = startInitialMessage slowClock (ascii ''hello'') initialState"

definition fastStart :: state where
  "fastStart = startInitialMessage fastClock (ascii ''hello'') initialState"

text \<open>
  The state in which a tool call has been committed and its result has just been put
  into the buffer by the \<open>switch\<close>.
\<close>

definition pendingResultState :: state where
  "pendingResultState =
     handleChunk slowClock sampleDescr None
       (processChunks slowClock sampleDescr None slowStart [ToolCalls (Some [sampleCall])])
       (ToolResultChunk (Some sampleCall) (Some (sampleResult True (Some (ascii ''ok'')) None)))"

section \<open>Auxiliary notions\<close>

text \<open>
  The invariant of the run: at most one entry of the history is streaming, and none is
  while the local \<open>streamingEntry\<close> is \<open>null\<close>.
\<close>

definition streamInv :: "state \<Rightarrow> bool" where
  "streamInv st =
     (length (filter isStreaming (chatHistory st)) \<le> 1
      \<and> (streamingEntry st = None \<longrightarrow> filter isStreaming (chatHistory st) = []))"

text \<open>A completion chunk that carries content, and the payload of a content chunk.\<close>

fun appendsCompletion :: "chunk \<Rightarrow> bool" where
  "appendsCompletion (Completion (Some s)) = (s \<noteq> [])"
| "appendsCompletion _ = False"

fun contentPayload :: "chunk \<Rightarrow> jsstring" where
  "contentPayload (Content (Some s)) = s"
| "contentPayload _ = []"

text \<open>
  Content chunks, and the invariant of a run over content chunks alone: the history is the
  user's entry, followed by the streaming assistant entry once one has been committed,
  and what is committed followed by what is buffered is \<open>whole\<close>.
\<close>

fun isContent :: "chunk \<Rightarrow> bool" where
  "isContent (Content _) = True"
| "isContent _ = False"

definition contentInv :: "ChatEntry \<Rightarrow> jsstring \<Rightarrow> state \<Rightarrow> bool" where
  "contentInv u whole st =
     (pendingToolCalls st = None \<and> pendingToolResults st = [] \<and> \<not> isStreaming u
      \<and> (case streamingEntry st of
            None \<Rightarrow> chatHistory st = [u] \<and> accumulatedContent st = whole
          | Some _ \<Rightarrow>
              (\<exists>e. chatHistory st = [u, e] \<and> isStreaming e \<and> etype e = Assistant
                   \<and> content e @ accumulatedContent st = whole)))"

lemmas run_defs = processInitialMessage_def processChunks_def processChunk_def
  flushUpdates_def applyAccumulatedContent_def applyPendingToolCalls_def
  applyPendingToolResults_def updateEntry_def resultContent_def finishStream_def
  failStream_def startInitialMessage_def initialState_def Let_def

section \<open>Properties of the tool-result text\<close>

lemma ascii_simps [simp]:
  "ascii [] = []" "ascii (c # cs) = of_char c # ascii cs"
  by (simp_all add: ascii_def)

lemma updateEntry_match:
  assumes "\<not> isStreaming entry" "etype entry = ToolCall" "toolCall entry = Some tc"
    and "find (\<lambda>result. tc_id (fst result) = tc_id tc) results = Some (tc', r)"
  shows "updateEntry results entry =
           entry\<lparr>etype := ToolResult, content := resultContent r, toolResult := Some r\<rparr>"
proof -
  have eq: "find (\<lambda>result. etype entry = ToolCall \<and>
                 map_option tc_id (toolCall entry) = Some (tc_id (fst result))) results
        = find (\<lambda>result. tc_id (fst result) = tc_id tc) results"
    by (rule arg_cong [where f = "\<lambda>P. find P results"]) (use assms(2,3) in auto)
  show ?thesis
    unfolding updateEntry_def eq using assms(1,4) by simp
qed

text \<open>
  Claim C7, as amended. A matched tool-call entry takes the text of its result: for a
  success whose output has more than 200 code units, the first 200 followed by three
  dots; for a success whose output is not empty and has at most 200 code units, the
  output itself; for a failure with a non-empty error message, the failure mark followed
  by that message.
\<close>

theorem tool_result_preview:
  assumes "\<not> isStreaming entry" "etype entry = ToolCall" "toolCall entry = Some tc"
    and "find (\<lambda>result. tc_id (fst result) = tc_id tc) results = Some (tc', r)"
  shows "(success r \<and> outputText r = Some out \<and> 200 < length out \<longrightarrow>
            content (updateEntry results entry) = take 200 out @ ascii ''...'')
       \<and> (success r \<and> outputText r = Some out \<and> out \<noteq> [] \<and> length out \<le> 200 \<longrightarrow>
            content (updateEntry results entry) = out)
       \<and> (\<not> success r \<and> error r = Some e \<and> e \<noteq> [] \<longrightarrow>
            content (updateEntry results entry) = errorMarker @ e)"
  unfolding updateEntry_match [OF assms]
  by (auto simp add: resultContent_def ellipsis_def)

theorem tool_result_preview_witness:
  "content (updateEntry
       [(sampleCall, sampleResult True (Some (replicate 500 0x61)) None)] sampleCallEntry)
     = replicate 200 0x61 @ ascii ''...''
   \<and> content (updateEntry
       [(sampleCall, sampleResult True (Some (ascii ''ok'')) None)] sampleCallEntry)
     = ascii ''ok''
   \<and> content (updateEntry
       [(sampleCall, sampleResult False None (Some (ascii ''boom'')))] sampleCallEntry)
     = errorMarker @ ascii ''boom''"
  using
    tool_result_preview [of sampleCallEntry sampleCall
      "[(sampleCall, sampleResult True (Some (replicate 500 0x61)) None)]"
      sampleCall "sampleResult True (Some (replicate 500 0x61)) None" "replicate 500 0x61"]
    tool_result_preview [of sampleCallEntry sampleCall
      "[(sampleCall, sampleResult True (Some (ascii ''ok'')) None)]"
      sampleCall "sampleResult True (Some (ascii ''ok'')) None" "ascii ''ok''"]
    tool_result_preview [of sampleCallEntry sampleCall
      "[(sampleCall, sampleResult False None (Some (ascii ''boom'')))]"
      sampleCall "sampleResult False None (Some (ascii ''boom''))" _ "ascii ''boom''"]
  by (simp add: sampleCallEntry_def sampleCall_def sampleResult_def)

text \<open>
  Claim C7 as stated fails for the empty output, which has fewer than 200 code units and
  is not shown as it is: the entry shows the success mark instead.
\<close>

theorem tool_result_preview_counterexample:
  "length ([] :: jsstring) \<le> 200
   \<and> content (updateEntry [(sampleCall, sampleResult True (Some []) None)] sampleCallEntry)
       \<noteq> []"
  by (simp add: updateEntry_def resultContent_def successMarker_def
      sampleCallEntry_def sampleCall_def sampleResult_def)

text \<open>
  Claim C9. A matched tool-call entry whose result is a success with an empty or absent
  output shows the success mark (U+2713, then \<open>Success\<close> after a space).
\<close>

theorem empty_output_shows_success_marker:
  assumes "\<not> isStreaming entry" "etype entry = ToolCall" "toolCall entry = Some tc"
    and "find (\<lambda>result. tc_id (fst result) = tc_id tc) results = Some (tc', r)"
    and "success r" "outputText r = None \<or> outputText r = Some []"
  shows "content (updateEntry results entry) = 0x2713 # ascii '' Success''"
  unfolding updateEntry_match [OF assms(1-4)]
  using assms(5,6) by (auto simp add: resultContent_def successMarker_def)

theorem empty_output_shows_success_marker_witness:
  "content (updateEntry [(sampleCall, sampleResult True None None)] sampleCallEntry)
     = 0x2713 # ascii '' Success''
   \<and> content (updateEntry [(sampleCall, sampleResult True (Some []) None)] sampleCallEntry)
     = 0x2713 # ascii '' Success''"
  using
    empty_output_shows_success_marker [of sampleCallEntry sampleCall
      "[(sampleCall, sampleResult True None None)]" sampleCall "sampleResult True None None"]
    empty_output_shows_success_marker [of sampleCallEntry sampleCall
      "[(sampleCall, sampleResult True (Some []) None)]" sampleCall
      "sampleResult True (Some []) None"]
  by (simp add: sampleCallEntry_def sampleCall_def sampleResult_def)

section \<open>Rejection\<close>

text \<open>
  Claim C8. After the rejection callback the processing flag and the streaming flag are
  false, the token count and the processing time are 0, the start timestamp is reset to
  0, and no confirmation is pending.
\<close>

theorem rejection_resets_processing_flags:
  "isProcessing (handleRejection st) = False
   \<and> isStreamingState (handleRejection st) = False
   \<and> tokenCount (handleRejection st) = 0
   \<and> processingTime (handleRejection st) = 0
   \<and> processingStartTime (handleRejection st) = 0
   \<and> confirmationOptions (handleRejection st) = None
   \<and> chatHistory (handleRejection st) = chatHistory st"
  by (simp add: handleRejection_def)

section \<open>Headless output\<close>

lemma pushMessage_append: "pushMessage ms e = ms @ pushMessage [] e"
  by (simp add: pushMessage_def split: entry_type.split option.split)

lemma foldl_pushMessage:
  "foldl pushMessage ms es = ms @ concat (map (pushMessage []) es)"
proof (induction es arbitrary: ms)
  case Nil
  show ?case by simp
next
  case (Cons e es)
  have "foldl pushMessage ms (e # es) = foldl pushMessage (ms @ pushMessage [] e) es"
    using pushMessage_append [of ms e] by simp
  then show ?case by (simp add: Cons.IH)
qed

lemma length_pushMessage: "length (pushMessage [] e) = (if emitsMessage e then 1 else 0)"
  by (simp add: pushMessage_def emitsMessage_def split: entry_type.split option.split)

lemma length_concat_pushMessage:
  "length (concat (map (pushMessage []) es)) = length (filter emitsMessage es)"
  by (induction es) (simp_all add: length_pushMessage)

text \<open>
  Claim C10. The lines of the headless output are, in the order of the entries, the one
  message of each user entry, of each assistant entry and of each tool-result entry that
  has a tool call; every other entry contributes no line.
\<close>

theorem headless_one_line_per_message:
  "headlessOutput stringify chatEntries
     = concat (map (\<lambda>entry. map stringify (pushMessage [] entry)) chatEntries)
   \<and> length (headlessOutput stringify chatEntries)
     = length (filter emitsMessage chatEntries)
   \<and> length (pushMessage [] entry) = (if emitsMessage entry then 1 else 0)"
proof -
  have msgs: "headlessMessages chatEntries = concat (map (pushMessage []) chatEntries)"
    using foldl_pushMessage [of "[]" chatEntries] by (simp add: headlessMessages_def)
  have lines: "headlessOutput stringify chatEntries
      = concat (map (\<lambda>entry. map stringify (pushMessage [] entry)) chatEntries)"
    by (simp add: headlessOutput_def msgs map_concat comp_def)
  have count: "length (headlessOutput stringify chatEntries)
      = length (filter emitsMessage chatEntries)"
    unfolding headlessOutput_def msgs length_map by (rule length_concat_pushMessage)
  show ?thesis
    using lines count length_pushMessage [of entry] by blast
qed

section \<open>The streaming flag of the entries\<close>

lemma findIndex_None: "findIndex P xs = None \<longleftrightarrow> filter P xs = []"
  by (induction xs) auto

lemma findIndex_Some: "findIndex P xs = Some i \<Longrightarrow> i < length xs \<and> P (xs ! i)"
  by (induction xs arbitrary: i) (auto split: if_splits)

lemma length_filter_update:
  "i < length xs \<Longrightarrow> P y = P (xs ! i) \<Longrightarrow>
     length (filter P (xs[i := y])) = length (filter P xs)"
proof (induction xs arbitrary: i)
  case Nil
  then show ?case by simp
next
  case (Cons x xs)
  then show ?case by (cases i) auto
qed

lemma filter_clear_first:
  "findIndex P xs = Some i \<Longrightarrow> length (filter P xs) \<le> 1 \<Longrightarrow> \<not> P y \<Longrightarrow>
     filter P (xs[i := y]) = []"
proof (induction xs arbitrary: i)
  case Nil
  then show ?case by simp
next
  case (Cons x xs)
  show ?case
  proof (cases "P x")
    case True
    with Cons.prems have "i = 0" "filter P xs = []" by auto
    with Cons.prems(3) show ?thesis by simp
  next
    case False
    with Cons.prems(1) obtain j where j: "findIndex P xs = Some j" "i = Suc j" by auto
    from Cons.prems(2) False have "length (filter P xs) \<le> 1" by simp
    from Cons.IH [OF j(1) this Cons.prems(3)] False j(2) show ?thesis by simp
  qed
qed

lemma pushToolCallEntries_appends:
  "\<exists>ys. pushToolCallEntries clk descr tcs (h, t) = (h @ ys, t + length tcs)
        \<and> length ys = length tcs \<and> filter isStreaming ys = []"
proof (induction tcs arbitrary: h t)
  case Nil
  show ?case by simp
next
  case (Cons tc tcs)
  let ?e = "\<lparr>etype = ToolCall, content = descr tc, timestamp = clk t,
             isStreaming = False, toolCalls = None, toolCall = Some tc,
             toolResult = None\<rparr>"
  from Cons.IH [of "h @ [?e]" "Suc t"] obtain ys where
    ys: "pushToolCallEntries clk descr tcs (h @ [?e], Suc t) = ((h @ [?e]) @ ys, Suc t + length tcs)"
      "length ys = length tcs" "filter isStreaming ys = []" by blast
  have "pushToolCallEntries clk descr (tc # tcs) (h, t) = (h @ (?e # ys), t + length (tc # tcs))"
    using ys(1) by simp
  moreover have "length (?e # ys) = length (tc # tcs)" using ys(2) by simp
  moreover have "filter isStreaming (?e # ys) = []" using ys(3) by simp
  ultimately show ?case by blast
qed

lemma streamInv_applyAccumulatedContent:
  assumes "streamInv st" shows "streamInv (applyAccumulatedContent clk st)"
proof (cases "accumulatedContent st = []")
  case True
  with assms show ?thesis by (simp add: applyAccumulatedContent_def)
next
  case False
  show ?thesis
  proof (cases "streamingEntry st")
    case None
    with assms False show ?thesis
      by (simp add: applyAccumulatedContent_def streamInv_def Let_def)
  next
    case (Some e)
    show ?thesis
    proof (cases "findIndex isStreaming (chatHistory st)")
      case None
      with assms False Some show ?thesis
        by (simp add: applyAccumulatedContent_def streamInv_def)
    next
      case (Some i)
      note idx = findIndex_Some [OF Some]
      let ?y = "(chatHistory st ! i)\<lparr>content := content (chatHistory st ! i) @ accumulatedContent st\<rparr>"
      have "length (filter isStreaming ((chatHistory st)[i := ?y]))
             = length (filter isStreaming (chatHistory st))"
        using idx by (intro length_filter_update) simp_all
      with assms False \<open>streamingEntry st = Some e\<close> Some show ?thesis
        by (simp add: applyAccumulatedContent_def streamInv_def)
    qed
  qed
qed

lemma streamInv_applyPendingToolCalls:
  assumes "streamInv st" shows "streamInv (applyPendingToolCalls clk descr st)"
proof (cases "pendingToolCalls st")
  case None
  with assms show ?thesis by (simp add: applyPendingToolCalls_def)
next
  case (Some tcs)
  define newHistory where "newHistory =
     (case findIndex isStreaming (chatHistory st) of
        None \<Rightarrow> chatHistory st
      | Some streamingIdx \<Rightarrow>
          (chatHistory st)[streamingIdx :=
             (chatHistory st ! streamingIdx)\<lparr>isStreaming := False, toolCalls := Some tcs\<rparr>])"
  have clear: "filter isStreaming newHistory = []"
  proof (cases "findIndex isStreaming (chatHistory st)")
    case None
    then have "filter isStreaming (chatHistory st) = []" by (simp add: findIndex_None)
    with None show ?thesis by (simp add: newHistory_def)
  next
    case (Some i)
    from assms have "length (filter isStreaming (chatHistory st)) \<le> 1"
      by (simp add: streamInv_def)
    from filter_clear_first [OF Some this] Some show ?thesis
      by (simp add: newHistory_def)
  qed
  obtain ys where ys:
    "pushToolCallEntries clk descr tcs (newHistory, ticks st)
       = (newHistory @ ys, ticks st + length tcs)"
    "filter isStreaming ys = []"
    using pushToolCallEntries_appends [of clk descr tcs newHistory "ticks st"] by blast
  have "chatHistory (applyPendingToolCalls clk descr st) = newHistory @ ys"
    using Some ys(1) by (simp add: applyPendingToolCalls_def newHistory_def)
  with clear ys(2) show ?thesis by (simp add: streamInv_def)
qed

lemma filter_updateEntry: "filter isStreaming (map (updateEntry results) h) = []"
  by (induction h) (simp_all add: updateEntry_def split: option.split)

lemma streamInv_applyPendingToolResults:
  assumes "streamInv st" shows "streamInv (applyPendingToolResults st)"
  using assms by (simp add: applyPendingToolResults_def streamInv_def filter_updateEntry)

lemma streamInv_flushUpdates:
  assumes "streamInv st" shows "streamInv (flushUpdates clk descr conf st)"
proof -
  have t: "streamInv (st\<lparr>ticks := Suc (ticks st)\<rparr>)"
    using assms by (simp add: streamInv_def)
  have u: "streamInv s \<Longrightarrow> streamInv (s\<lparr>tokenCount := n\<rparr>)"
       "streamInv s \<Longrightarrow> streamInv (s\<lparr>lastUpdateTime := m\<rparr>)" for s n m
    by (simp_all add: streamInv_def)
  note steps = streamInv_applyPendingToolResults [OF streamInv_applyPendingToolCalls
      [OF streamInv_applyAccumulatedContent [OF t]]]
  show ?thesis
    unfolding flushUpdates_def Let_def
    using t steps u by (simp split: if_splits)
qed

lemma streamInv_handleChunk:
  assumes "streamInv st" shows "streamInv (handleChunk clk descr conf st c)"
proof (cases c)
  case (Content x)
  with assms show ?thesis by (simp add: streamInv_def split: option.split)
next
  case (Completion x)
  have "streamInv (flushUpdates clk descr conf st)"
    using assms by (rule streamInv_flushUpdates)
  with assms Completion show ?thesis
    by (simp add: streamInv_def Let_def split: option.split)
next
  case (TokenCount x)
  with assms show ?thesis by (simp add: streamInv_def split: option.split)
next
  case (ToolCalls x)
  with assms show ?thesis by (simp add: streamInv_def split: option.split)
next
  case (ToolResultChunk x y)
  with assms show ?thesis by (simp add: streamInv_def split: option.split)
next
  case Done
  with assms show ?thesis by (simp add: streamInv_flushUpdates)
qed

lemma streamInv_processChunk:
  "streamInv st \<Longrightarrow> streamInv (processChunk clk descr conf st c)"
  by (simp add: processChunk_def streamInv_flushUpdates streamInv_handleChunk)

lemma streamInv_processChunks:
  "streamInv st \<Longrightarrow> streamInv (processChunks clk descr conf st cs)"
  unfolding processChunks_def
  by (induction cs arbitrary: st) (simp_all add: streamInv_processChunk)

lemma streamInv_startInitialMessage: "streamInv (startInitialMessage clk msg st)"
  by (simp add: startInitialMessage_def streamInv_def)

lemma filter_clear_all:
  "filter isStreaming
     (map (\<lambda>entry. if isStreaming entry then entry\<lparr>isStreaming := False\<rparr> else entry) h) = []"
  by (induction h) simp_all

lemma streamInv_finishStream:
  assumes "streamInv st" shows "streamInv (finishStream clk descr conf st)"
proof -
  have "streamInv (flushUpdates clk descr conf st)"
    using assms by (rule streamInv_flushUpdates)
  then show ?thesis
    by (simp add: finishStream_def Let_def streamInv_def filter_clear_all split: option.split)
qed

lemma streamInv_failStream: "streamInv st \<Longrightarrow> streamInv (failStream clk msg st)"
  by (simp add: failStream_def streamInv_def)

lemma streamInv_processInitialMessage:
  "streamInv (processInitialMessage clk descr conf msg cs thrown st)"
proof -
  have run: "streamInv (processChunks clk descr conf (startInitialMessage clk msg st) cs)"
    by (rule streamInv_processChunks [OF streamInv_startInitialMessage])
  have u: "streamInv s \<Longrightarrow> streamInv (s\<lparr>isProcessing := False, processingStartTime := 0\<rparr>)" for s
    by (simp add: streamInv_def)
  show ?thesis
  proof (cases thrown)
    case None
    then show ?thesis
      using u [OF streamInv_finishStream [OF run]]
      by (simp add: processInitialMessage_def Let_def)
  next
    case (Some e)
    then show ?thesis
      using u [OF streamInv_failStream [OF run]]
      by (simp add: processInitialMessage_def Let_def)
  qed
qed

text \<open>
  Claim C4. In a run of \<open>processInitialMessage\<close> at most one entry of the history is
  streaming: after any number of chunks, after the flush and after the \<open>switch\<close> that
  follow them, and at the end of the run, whether the stream ended or threw.
\<close>

theorem at_most_one_streaming_entry:
  "length (filter isStreaming (chatHistory
      (processChunks clk descr conf (startInitialMessage clk msg st) cs))) \<le> 1
   \<and> length (filter isStreaming (chatHistory
      (flushUpdates clk descr conf
         (processChunks clk descr conf (startInitialMessage clk msg st) cs)))) \<le> 1
   \<and> length (filter isStreaming (chatHistory
      (handleChunk clk descr conf
         (processChunks clk descr conf (startInitialMessage clk msg st) cs) c))) \<le> 1
   \<and> length (filter isStreaming (chatHistory
      (processInitialMessage clk descr conf msg cs thrown st))) \<le> 1"
proof -
  have run: "streamInv (processChunks clk descr conf (startInitialMessage clk msg st) cs)"
    by (rule streamInv_processChunks [OF streamInv_startInitialMessage])
  show ?thesis
    using run streamInv_flushUpdates [OF run, of clk descr conf]
      streamInv_handleChunk [OF run, of clk descr conf c]
      streamInv_processInitialMessage [of clk descr conf msg cs thrown st]
    by (simp add: streamInv_def)
qed

section \<open>A pending confirmation\<close>

lemma flushUpdates_pending:
  "flushUpdates clk descr (Some opts) st = st\<lparr>ticks := Suc (ticks st)\<rparr>"
  by (simp add: flushUpdates_def Let_def)

lemma processChunk_pending:
  assumes "\<not> appendsCompletion c"
  shows "chatHistory (processChunk clk descr (Some opts) st c) = chatHistory st
       \<and> streamingEntry (processChunk clk descr (Some opts) st c) = streamingEntry st
       \<and> accumulatedContent (processChunk clk descr (Some opts) st c)
           = accumulatedContent st @ contentPayload c"
proof (cases c)
  case (Content x)
  then show ?thesis
    by (cases x) (simp_all add: processChunk_def flushUpdates_pending)
next
  case (Completion x)
  with assms show ?thesis
    by (cases x) (simp_all add: processChunk_def flushUpdates_pending)
next
  case (TokenCount x)
  then show ?thesis
    by (cases x) (simp_all add: processChunk_def flushUpdates_pending)
next
  case (ToolCalls x)
  then show ?thesis
    by (cases x) (simp_all add: processChunk_def flushUpdates_pending)
next
  case (ToolResultChunk x y)
  then show ?thesis
    by (cases x; cases y) (simp_all add: processChunk_def flushUpdates_pending)
next
  case Done
  then show ?thesis
    by (simp add: processChunk_def flushUpdates_pending)
qed

text \<open>
  What the guard of the flush does when the \<open>confirmationOptions\<close> of its closure is
  not \<open>null\<close>: any number of chunks other than completion chunks with content leave
  the history and the streaming entry as they were, and the content payloads are appended
  to the buffer.
\<close>

lemma captured_confirmation_freezes_history:
  assumes "\<forall>c \<in> set cs. \<not> appendsCompletion c"
  shows "chatHistory (processChunks clk descr (Some opts) st cs) = chatHistory st
       \<and> streamingEntry (processChunks clk descr (Some opts) st cs) = streamingEntry st
       \<and> accumulatedContent (processChunks clk descr (Some opts) st cs)
           = accumulatedContent st @ concat (map contentPayload cs)"
  using assms
proof (induction cs arbitrary: st)
  case Nil
  show ?case by (simp add: processChunks_def)
next
  case (Cons c cs)
  have step: "processChunks clk descr (Some opts) st (c # cs)
      = processChunks clk descr (Some opts) (processChunk clk descr (Some opts) st c) cs"
    by (simp add: processChunks_def)
  from Cons.prems have c: "\<not> appendsCompletion c" and cs: "\<forall>c \<in> set cs. \<not> appendsCompletion c"
    by simp_all
  show ?case
    unfolding step
    using Cons.IH [OF cs, of "processChunk clk descr (Some opts) st c"]
      processChunk_pending [OF c, of clk descr opts st]
    by simp
qed

text \<open>
  A completion chunk with content is appended by its own \<open>setChatHistory\<close>, whatever
  the closure holds.
\<close>

lemma completion_is_appended_despite_guard:
  "chatHistory (processChunk slowClock sampleDescr (Some sampleOptions) slowStart
      (Completion (Some (ascii ''ok''))))
     = chatHistory slowStart @
       [\<lparr>etype = Assistant, content = ascii ''ok'', timestamp = 900, isStreaming = False,
         toolCalls = None, toolCall = None, toolResult = None\<rparr>]"
  by (simp add: run_defs slowStart_def slowClock_def)

text \<open>A run of the effect over chunks alone is \<open>processInitialMessage\<close>.\<close>

lemma processEvents_chunks:
  "processEvents clk descr conf st (map ChunkArrives cs) = processChunks clk descr conf st cs"
  unfolding processEvents_def processChunks_def
  by (induction cs arbitrary: st) simp_all

lemma initialMessageEffect_chunks:
  "initialMessage \<noteq> [] \<Longrightarrow>
     initialMessageEffect clk descr initialMessage (map ChunkArrives cs) thrown st
       = processInitialMessage clk descr (confirmationOptions st) initialMessage cs thrown st"
  by (simp add: initialMessageEffect_def processInitialMessage_def processEvents_chunks Let_def)

text \<open>
  Claim C3. The component mounts with the initial message \<open>hello\<close>, so the closure of
  the effect holds \<open>null\<close> for \<open>confirmationOptions\<close>. A confirmation is requested
  while the stream runs, and 300 ms after the start a content chunk arrives. The request
  sets the state, which stays set, but the flush tests the \<open>null\<close> of its closure: it
  appends the streaming entry to the history while the confirmation is pending, and the
  content does not stay in the buffer.
\<close>

theorem confirmation_requested_mid_stream_freezes_nothing:
  "confirmationOptions (processEvents lateClock sampleDescr (confirmationOptions initialState)
      lateStart [ConfirmationRequested sampleOptions]) = Some sampleOptions
   \<and> chatHistory (processEvents lateClock sampleDescr (confirmationOptions initialState)
      lateStart [ConfirmationRequested sampleOptions]) = chatHistory lateStart
   \<and> confirmationOptions (processEvents lateClock sampleDescr (confirmationOptions initialState)
      lateStart [ConfirmationRequested sampleOptions,
                 ChunkArrives (Content (Some (ascii ''Hi'')))]) = Some sampleOptions
   \<and> chatHistory (processEvents lateClock sampleDescr (confirmationOptions initialState)
      lateStart [ConfirmationRequested sampleOptions,
                 ChunkArrives (Content (Some (ascii ''Hi'')))])
     = chatHistory lateStart @
       [\<lparr>etype = Assistant, content = ascii ''Hi'', timestamp = 300, isStreaming = True,
         toolCalls = None, toolCall = None, toolResult = None\<rparr>]
   \<and> accumulatedContent (processEvents lateClock sampleDescr (confirmationOptions initialState)
      lateStart [ConfirmationRequested sampleOptions,
                 ChunkArrives (Content (Some (ascii ''Hi'')))]) = []
   \<and> chatHistory (initialMessageEffect lateClock sampleDescr (ascii ''hello'')
      [ConfirmationRequested sampleOptions, ChunkArrives (Content (Some (ascii ''Hi'')))]
      None initialState)
     = [\<lparr>etype = User, content = ascii ''hello'', timestamp = 0, isStreaming = False,
         toolCalls = None, toolCall = None, toolResult = None\<rparr>,
        \<lparr>etype = Assistant, content = ascii ''Hi'', timestamp = 300, isStreaming = False,
         toolCalls = None, toolCall = None, toolResult = None\<rparr>]
   \<and> confirmationOptions (initialMessageEffect lateClock sampleDescr (ascii ''hello'')
      [ConfirmationRequested sampleOptions, ChunkArrives (Content (Some (ascii ''Hi'')))]
      None initialState) = Some sampleOptions"
  by (simp add: initialMessageEffect_def processEvents_def handleConfirmationRequest_def
      run_defs lateStart_def lateClock_def)

section \<open>Tool results in the flush\<close>

lemma applyAccumulatedContent_pending:
  "pendingToolResults (applyAccumulatedContent clk st) = pendingToolResults st"
  "pendingToolCalls (applyAccumulatedContent clk st) = pendingToolCalls st"
  by (simp_all add: applyAccumulatedContent_def Let_def split: option.split)

lemma applyAccumulatedContent_length:
  "length (chatHistory (applyAccumulatedContent clk st))
     = length (chatHistory st)
       + (if accumulatedContent st \<noteq> [] \<and> streamingEntry st = None then 1 else 0)"
  by (simp add: applyAccumulatedContent_def Let_def split: option.split)

lemma applyAccumulatedContent_nth:
  assumes "i < length (chatHistory st)" "\<not> isStreaming (chatHistory st ! i)"
  shows "chatHistory (applyAccumulatedContent clk st) ! i = chatHistory st ! i"
proof (cases "findIndex isStreaming (chatHistory st)")
  case None
  with assms(1) show ?thesis
    by (simp add: applyAccumulatedContent_def Let_def nth_append split: option.split)
next
  case (Some j)
  from findIndex_Some [OF Some] assms(2) have "j \<noteq> i" by auto
  with Some assms(1) show ?thesis
    by (simp add: applyAccumulatedContent_def Let_def nth_append split: option.split)
qed

lemma applyPendingToolCalls_pending:
  "pendingToolResults (applyPendingToolCalls clk descr st) = pendingToolResults st"
  by (simp add: applyPendingToolCalls_def Let_def split: option.split prod.split)

lemma applyPendingToolCalls_history:
  assumes "pendingToolCalls st = Some tcs"
  shows "\<exists>ys. length ys = length tcs \<and>
           chatHistory (applyPendingToolCalls clk descr st)
             = (case findIndex isStreaming (chatHistory st) of
                  None \<Rightarrow> chatHistory st
                | Some streamingIdx \<Rightarrow>
                    (chatHistory st)[streamingIdx :=
                       (chatHistory st ! streamingIdx)
                         \<lparr>isStreaming := False, toolCalls := Some tcs\<rparr>]) @ ys"
proof -
  let ?h = "case findIndex isStreaming (chatHistory st) of
                  None \<Rightarrow> chatHistory st
                | Some streamingIdx \<Rightarrow>
                    (chatHistory st)[streamingIdx :=
                       (chatHistory st ! streamingIdx)
                         \<lparr>isStreaming := False, toolCalls := Some tcs\<rparr>]"
  obtain ys where ys:
    "pushToolCallEntries clk descr tcs (?h, ticks st) = (?h @ ys, ticks st + length tcs)"
    "length ys = length tcs"
    using pushToolCallEntries_appends [of clk descr tcs ?h "ticks st"] by blast
  have "chatHistory (applyPendingToolCalls clk descr st) = ?h @ ys"
    using assms ys(1) by (simp add: applyPendingToolCalls_def)
  with ys(2) show ?thesis by blast
qed

lemma applyPendingToolCalls_length:
  "length (chatHistory (applyPendingToolCalls clk descr st))
     = length (chatHistory st)
       + (case pendingToolCalls st of None \<Rightarrow> 0 | Some tcs \<Rightarrow> length tcs)"
proof (cases "pendingToolCalls st")
  case None
  then show ?thesis by (simp add: applyPendingToolCalls_def)
next
  case (Some tcs)
  from applyPendingToolCalls_history [OF Some, of clk descr] Some show ?thesis
    by (auto split: option.split)
qed

lemma applyPendingToolCalls_nth:
  assumes "i < length (chatHistory st)" "\<not> isStreaming (chatHistory st ! i)"
  shows "chatHistory (applyPendingToolCalls clk descr st) ! i = chatHistory st ! i"
proof (cases "pendingToolCalls st")
  case None
  then show ?thesis by (simp add: applyPendingToolCalls_def)
next
  case (Some tcs)
  from applyPendingToolCalls_history [OF Some, of clk descr] obtain ys where
    h: "chatHistory (applyPendingToolCalls clk descr st)
             = (case findIndex isStreaming (chatHistory st) of
                  None \<Rightarrow> chatHistory st
                | Some streamingIdx \<Rightarrow>
                    (chatHistory st)[streamingIdx :=
                       (chatHistory st ! streamingIdx)
                         \<lparr>isStreaming := False, toolCalls := Some tcs\<rparr>]) @ ys"
    by blast
  show ?thesis
  proof (cases "findIndex isStreaming (chatHistory st)")
    case None
    with h assms(1) show ?thesis by (simp add: nth_append)
  next
    case (Some j)
    from findIndex_Some [OF Some] assms(2) have "j \<noteq> i" by auto
    with h Some assms(1) show ?thesis by (simp add: nth_append)
  qed
qed

lemma applyPendingToolResults_length:
  "length (chatHistory (applyPendingToolResults st)) = length (chatHistory st)"
  by (simp add: applyPendingToolResults_def)

text \<open>
  What a flush that is due and not held back does with a buffered result: it turns a
  tool-call entry whose id matches into a tool-result entry at the same position, with
  the text and the payload of the first such result; the history grows only by what the
  buffered content and the buffered tool calls append, and the step that applies the
  results keeps its length.
\<close>

lemma due_flush_converts_in_place:
  assumes flush: "\<not> clk (ticks st) - lastUpdateTime st < 250"
    and idx: "i < length (chatHistory st)"
    and call: "etype (chatHistory st ! i) = ToolCall" "\<not> isStreaming (chatHistory st ! i)"
      "toolCall (chatHistory st ! i) = Some tc"
    and res: "find (\<lambda>result. tc_id (fst result) = tc_id tc) (pendingToolResults st)
                = Some (tc', r)"
  shows "chatHistory (flushUpdates clk descr None st) ! i
           = (chatHistory st ! i)
               \<lparr>etype := ToolResult, content := resultContent r, toolResult := Some r\<rparr>
       \<and> length (chatHistory (flushUpdates clk descr None st))
           = length (chatHistory st)
             + (if accumulatedContent st \<noteq> [] \<and> streamingEntry st = None then 1 else 0)
             + (case pendingToolCalls st of None \<Rightarrow> 0 | Some tcs \<Rightarrow> length tcs)
       \<and> length (chatHistory (applyPendingToolResults st)) = length (chatHistory st)"
proof -
  define s0 where "s0 = st\<lparr>ticks := Suc (ticks st)\<rparr>"
  define s1 where "s1 = applyAccumulatedContent clk s0"
  define s2 where "s2 = applyPendingToolCalls clk descr s1"
  define s3 where "s3 = applyPendingToolResults s2"
  have hist: "chatHistory (flushUpdates clk descr None st) = chatHistory s3"
    using flush by (simp add: flushUpdates_def Let_def s0_def s1_def s2_def s3_def)
  have s0: "chatHistory s0 = chatHistory st" "pendingToolResults s0 = pendingToolResults st"
    "pendingToolCalls s0 = pendingToolCalls st" "accumulatedContent s0 = accumulatedContent st"
    "streamingEntry s0 = streamingEntry st"
    by (simp_all add: s0_def)
  have len1: "length (chatHistory s1) = length (chatHistory st)
       + (if accumulatedContent st \<noteq> [] \<and> streamingEntry st = None then 1 else 0)"
    unfolding s1_def applyAccumulatedContent_length s0 ..
  have nth1: "chatHistory s1 ! i = chatHistory st ! i"
    unfolding s1_def using applyAccumulatedContent_nth [of i s0 clk] idx call(2) s0(1) by simp
  have i1: "i < length (chatHistory s1)" using idx len1 by simp
  have len2: "length (chatHistory s2) = length (chatHistory s1)
       + (case pendingToolCalls st of None \<Rightarrow> 0 | Some tcs \<Rightarrow> length tcs)"
    unfolding s2_def applyPendingToolCalls_length
    by (simp add: s1_def applyAccumulatedContent_pending s0)
  have nth2: "chatHistory s2 ! i = chatHistory st ! i"
    unfolding s2_def using applyPendingToolCalls_nth [of i s1 clk descr] i1 nth1 call(2) by simp
  have i2: "i < length (chatHistory s2)" using i1 len2 by simp
  have pend: "pendingToolResults s2 = pendingToolResults st"
    by (simp add: s2_def s1_def applyPendingToolCalls_pending applyAccumulatedContent_pending s0)
  from res have nonempty: "length (pendingToolResults s2) > 0"
    unfolding pend by (cases "pendingToolResults st") simp_all
  have "chatHistory s3 ! i = updateEntry (pendingToolResults st) (chatHistory st ! i)"
    using nonempty i2 nth2 pend by (simp add: s3_def applyPendingToolResults_def)
  also have "\<dots> = (chatHistory st ! i)
               \<lparr>etype := ToolResult, content := resultContent r, toolResult := Some r\<rparr>"
    by (rule updateEntry_match [OF call(2) call(1) call(3) res])
  finally have conv: "chatHistory s3 ! i = (chatHistory st ! i)
               \<lparr>etype := ToolResult, content := resultContent r, toolResult := Some r\<rparr>" .
  have len3: "length (chatHistory s3) = length (chatHistory s2)"
    unfolding s3_def by (rule applyPendingToolResults_length)
  show ?thesis
    unfolding hist using conv len1 len2 len3 applyPendingToolResults_length [of st] by simp
qed

lemma pendingResultState_eval:
  "chatHistory pendingResultState =
     [\<lparr>etype = User, content = ascii ''hello'', timestamp = 0, isStreaming = False,
       toolCalls = None, toolCall = None, toolResult = None\<rparr>,
      \<lparr>etype = ToolCall, content = ascii ''Using list_files'', timestamp = 900, isStreaming = False,
       toolCalls = None, toolCall = Some sampleCall, toolResult = None\<rparr>]"
  "pendingToolResults pendingResultState = [(sampleCall, sampleResult True (Some (ascii ''ok'')) None)]"
  "ticks pendingResultState = 4" "lastUpdateTime pendingResultState = 600"
  "accumulatedContent pendingResultState = []" "pendingToolCalls pendingResultState = None"
  by (simp_all add: run_defs slowStart_def pendingResultState_def sampleDescr_def
      describeToolCall_def slowClock_def sampleCall_def)

lemma due_flush_converts_in_place_example:
  "chatHistory (flushUpdates slowClock sampleDescr None pendingResultState) ! 1
     = \<lparr>etype = ToolResult, content = ascii ''ok'', timestamp = 900, isStreaming = False,
        toolCalls = None, toolCall = Some sampleCall,
        toolResult = Some (sampleResult True (Some (ascii ''ok'')) None)\<rparr>
   \<and> length (chatHistory (flushUpdates slowClock sampleDescr None pendingResultState)) = 2
   \<and> length (chatHistory pendingResultState) = 2"
  using due_flush_converts_in_place [of slowClock pendingResultState 1 sampleCall
      sampleCall "sampleResult True (Some (ascii ''ok'')) None" sampleDescr]
  by (simp add: pendingResultState_eval slowClock_def resultContent_def sampleResult_def)

text \<open>
  Claim C5. A tool call is committed 300 ms after the start; its result, with the
  matching id, arrives in the same millisecond and the stream ends. The flush after the
  result and the final flush both return at the throttle: the history ends with the
  tool-call entry as it was, and the result is never applied.
\<close>

theorem tool_result_lost_when_throttled:
  "chatHistory (processInitialMessage lateClock sampleDescr None (ascii ''hello'')
      [ToolCalls (Some [sampleCall]),
       ToolResultChunk (Some sampleCall) (Some (sampleResult True (Some (ascii ''ok'')) None))]
      None initialState)
     = [\<lparr>etype = User, content = ascii ''hello'', timestamp = 0, isStreaming = False,
         toolCalls = None, toolCall = None, toolResult = None\<rparr>,
        \<lparr>etype = ToolCall, content = ascii ''Using list_files'', timestamp = 300,
         isStreaming = False, toolCalls = None, toolCall = Some sampleCall,
         toolResult = None\<rparr>]"
  by (simp add: run_defs lateClock_def sampleDescr_def describeToolCall_def sampleCall_def)

section \<open>What the throttle lets through\<close>

lemma flushUpdates_throttled:
  "clk (ticks st) - lastUpdateTime st < 250 \<Longrightarrow>
     flushUpdates clk descr conf st = st\<lparr>ticks := Suc (ticks st)\<rparr>"
  by (simp add: flushUpdates_def Let_def)

lemma flushUpdates_due:
  "\<not> clk (ticks st) - lastUpdateTime st < 250 \<Longrightarrow>
     lastUpdateTime (flushUpdates clk descr None st) = clk (ticks st)"
  by (simp add: flushUpdates_def Let_def)

text \<open>
  Over content chunks nothing is lost between the entry and the buffer, and a final
  flush that is due commits all of it.
\<close>

lemma contentInv_flushUpdates:
  assumes "contentInv u whole st"
  shows "contentInv u whole (flushUpdates clk descr None st)"
proof (cases "streamingEntry st")
  case None
  with assms show ?thesis
    by (simp add: contentInv_def flushUpdates_def applyAccumulatedContent_def
        applyPendingToolCalls_def applyPendingToolResults_def Let_def)
next
  case (Some s)
  with assms obtain e where e: "chatHistory st = [u, e]" "isStreaming e" "etype e = Assistant"
    "content e @ accumulatedContent st = whole" "\<not> isStreaming u"
    "pendingToolCalls st = None" "pendingToolResults st = []"
    by (auto simp add: contentInv_def)
  with Some show ?thesis
    by (auto simp add: contentInv_def flushUpdates_def applyAccumulatedContent_def
        applyPendingToolCalls_def applyPendingToolResults_def Let_def)
qed

lemma contentInv_processChunk:
  assumes "contentInv u whole st" "isContent c"
  shows "contentInv u (whole @ contentPayload c) (processChunk clk descr None st c)"
proof -
  from assms(2) obtain x where c: "c = Content x" by (cases c) simp_all
  have "contentInv u (whole @ contentPayload c) (handleChunk clk descr None st c)"
    using assms(1) unfolding c
    by (cases x) (auto simp add: contentInv_def split: option.splits)
  then show ?thesis
    unfolding processChunk_def by (rule contentInv_flushUpdates)
qed

lemma contentInv_processChunks:
  assumes "\<forall>c \<in> set cs. isContent c" "contentInv u whole st"
  shows "contentInv u (whole @ concat (map contentPayload cs)) (processChunks clk descr None st cs)"
  using assms
proof (induction cs arbitrary: st whole)
  case Nil
  then show ?case by (simp add: processChunks_def)
next
  case (Cons c cs)
  have step: "processChunks clk descr None st (c # cs)
      = processChunks clk descr None (processChunk clk descr None st c) cs"
    by (simp add: processChunks_def)
  from Cons.prems have c: "isContent c" and cs: "\<forall>c \<in> set cs. isContent c" by simp_all
  from Cons.IH [OF cs contentInv_processChunk [OF Cons.prems(2) c]]
  show ?case unfolding step by simp
qed

lemma contentInv_start:
  "contentInv \<lparr>etype = User, content = msg, timestamp = clk (ticks st),
             isStreaming = False, toolCalls = None, toolCall = None,
             toolResult = None\<rparr> [] (startInitialMessage clk msg st)"
  by (simp add: contentInv_def startInitialMessage_def)

lemma contentInv_finishStream:
  assumes "contentInv u whole st" "whole \<noteq> []" "\<not> clk (ticks st) - lastUpdateTime st < 250"
  shows "\<exists>e. chatHistory (finishStream clk descr None st) = [u, e] \<and> etype e = Assistant
           \<and> content e = whole \<and> \<not> isStreaming e"
proof (cases "streamingEntry st")
  case None
  with assms show ?thesis
    by (simp add: contentInv_def finishStream_def flushUpdates_def applyAccumulatedContent_def
        applyPendingToolCalls_def applyPendingToolResults_def Let_def)
next
  case (Some s)
  with assms obtain e where e: "chatHistory st = [u, e]" "isStreaming e" "etype e = Assistant"
    "content e @ accumulatedContent st = whole" "\<not> isStreaming u"
    "pendingToolCalls st = None" "pendingToolResults st = []"
    by (auto simp add: contentInv_def)
  with Some assms(3) show ?thesis
    by (auto simp add: finishStream_def flushUpdates_def applyAccumulatedContent_def
        applyPendingToolCalls_def applyPendingToolResults_def Let_def)
qed

lemma content_kept_when_final_flush_is_due:
  assumes "\<forall>c \<in> set cs. isContent c" "concat (map contentPayload cs) \<noteq> []"
    and "\<not> clk (ticks (processChunks clk descr None (startInitialMessage clk msg st) cs))
           - lastUpdateTime (processChunks clk descr None (startInitialMessage clk msg st) cs) < 250"
  shows "\<exists>e. chatHistory (processInitialMessage clk descr None msg cs None st)
             = [\<lparr>etype = User, content = msg, timestamp = clk (ticks st),
                 isStreaming = False, toolCalls = None, toolCall = None,
                 toolResult = None\<rparr>, e]
           \<and> etype e = Assistant \<and> content e = concat (map contentPayload cs)
           \<and> \<not> isStreaming e"
proof -
  have "contentInv \<lparr>etype = User, content = msg, timestamp = clk (ticks st),
                 isStreaming = False, toolCalls = None, toolCall = None,
                 toolResult = None\<rparr> (concat (map contentPayload cs))
          (processChunks clk descr None (startInitialMessage clk msg st) cs)"
    using contentInv_processChunks [OF assms(1) contentInv_start]
    by simp
  then have "\<exists>e. chatHistory (finishStream clk descr None
                (processChunks clk descr None (startInitialMessage clk msg st) cs))
             = [\<lparr>etype = User, content = msg, timestamp = clk (ticks st),
                 isStreaming = False, toolCalls = None, toolCall = None,
                 toolResult = None\<rparr>, e]
           \<and> etype e = Assistant \<and> content e = concat (map contentPayload cs)
           \<and> \<not> isStreaming e"
    using assms(2,3) by (rule contentInv_finishStream)
  then show ?thesis by (simp add: processInitialMessage_def Let_def)
qed

section \<open>Runs that lose or keep what they should not\<close>

text \<open>
  Claim C1. On a stream of two content chunks that is consumed within 250 ms of its
  start, every flush, the final one included, returns at the throttle: the history ends
  with the user's entry alone and both payloads are lost.
\<close>

theorem content_lost_when_stream_is_fast:
  "chatHistory (processInitialMessage fastClock sampleDescr None (ascii ''hello'')
      [Content (Some (ascii ''Hi'')), Content (Some (ascii '' there''))] None initialState)
     = [\<lparr>etype = User, content = ascii ''hello'', timestamp = 0, isStreaming = False,
         toolCalls = None, toolCall = None, toolResult = None\<rparr>]"
  by (simp add: run_defs fastClock_def)

text \<open>
  Claim C2. A done chunk that arrives less than 250 ms after the last update does not
  flush: the history is unchanged and the content stays in the buffer.
\<close>

theorem done_does_not_force_flush:
  "chatHistory (processChunks fastClock sampleDescr None fastStart
      [Content (Some (ascii ''Hi'')), Done]) = chatHistory fastStart
   \<and> accumulatedContent (processChunks fastClock sampleDescr None fastStart
      [Content (Some (ascii ''Hi'')), Done]) = ascii ''Hi''
   \<and> lastUpdateTime (processChunks fastClock sampleDescr None fastStart
      [Content (Some (ascii ''Hi'')), Done]) = lastUpdateTime fastStart"
  by (simp add: run_defs fastStart_def fastClock_def)

text \<open>
  Claim C6. When the stream throws after a content chunk has been committed, the error
  entry is appended but the committed entry keeps its streaming flag.
\<close>

theorem error_leaves_entry_streaming:
  "chatHistory (processInitialMessage lateClock sampleDescr None (ascii ''hello'')
      [Content (Some (ascii ''Hi''))] (Some (ascii ''boom'')) initialState)
     = [\<lparr>etype = User, content = ascii ''hello'', timestamp = 0, isStreaming = False,
         toolCalls = None, toolCall = None, toolResult = None\<rparr>,
        \<lparr>etype = Assistant, content = ascii ''Hi'', timestamp = 300, isStreaming = True,
         toolCalls = None, toolCall = None, toolResult = None\<rparr>,
        \<lparr>etype = Assistant, content = ascii ''Error: boom'', timestamp = 300,
         isStreaming = False, toolCalls = None, toolCall = None, toolResult = None\<rparr>]
   \<and> isStreamingState (processInitialMessage lateClock sampleDescr None (ascii ''hello'')
      [Content (Some (ascii ''Hi''))] (Some (ascii ''boom'')) initialState) = False"
  by (simp add: run_defs lateClock_def)

end
